theory Spec2Isabelle
  imports Complex_Main
begin

section \<open>Data model\<close>

text \<open>
  The simulation parameters of \<^verbatim>\<open>HeatEquation2D.tsx\<close> (interface
  \<^verbatim>\<open>HeatEquationParams\<close>), by their values. The temperatures of the grid are computed
  over the reals: the rounding of a cell value is outside this development. What the
  program decides from its numbers is computed on doubles, see below.
\<close>

record HeatEquationParams =
  Lx :: real
  Ly :: real
  fL :: real
  fR :: real
  fT :: real
  alpha :: real
  dt :: real
  dx :: real
  dy :: real
  totalTime :: real
  gridResolution :: real

text \<open>
  A temperature field is a \<^verbatim>\<open>number[][]\<close>: an outer array of references to row
  arrays. Rows are mutable objects, so they live in a store; the address of a row is its
  position in the store, and allocation appends. The outer array is never assigned to by
  the program and is a list of row addresses.
\<close>

type_synonym heap = "real list list"
type_synonym field = "nat list"

text \<open>Reading \<^verbatim>\<open>u[i][j]\<close> and the assignment \<^verbatim>\<open>u[i][j] = v\<close>.\<close>

definition cell :: "heap \<Rightarrow> field \<Rightarrow> nat \<Rightarrow> nat \<Rightarrow> real" where
  "cell h g i j = h ! (g ! i) ! j"

definition assign :: "heap \<Rightarrow> field \<Rightarrow> nat \<Rightarrow> nat \<Rightarrow> real \<Rightarrow> heap" where
  "assign h g i j v = h[g ! i := (h ! (g ! i))[j := v]]"

text \<open>Allocation of fresh row arrays, one after the other, at the end of the store.\<close>

definition alloc :: "heap \<Rightarrow> real list list \<Rightarrow> heap \<times> field" where
  "alloc h rs = (h @ rs, [length h ..< length h + length rs])"

text \<open>
  A field of shape \<open>nx \<times> ny\<close>: \<open>nx\<close> pairwise distinct rows of the store, each of
  length \<open>ny\<close>. On such a field with \<open>nx \<ge> 2\<close> and \<open>ny \<ge> 2\<close> every index the
  functions below read or write is in range; the behaviour of the source on other
  arrays (reads of \<^verbatim>\<open>undefined\<close>, arrays growing on assignment) is not modelled.
\<close>

definition is_field :: "nat \<Rightarrow> nat \<Rightarrow> heap \<Rightarrow> field \<Rightarrow> bool" where
  "is_field nx ny h g \<longleftrightarrow>
     length g = nx \<and> distinct g \<and> (\<forall>a \<in> set g. a < length h \<and> length (h ! a) = ny)"

section \<open>JavaScript numbers\<close>

text \<open>
  Wherever a number decides something discrete (the size of an array, whether the warning
  is written, when the animation stops, a colour channel) it is modelled as the IEEE 754
  double the program holds: a finite value, one that is representable, or one of the
  special values. \<open>Num 0\<close> is the positive zero.
\<close>

datatype jsnum = Num real | NegZero | PosInf | NegInf | NaN

text \<open>
  Rounding to the nearest double, ties to even. \<open>expo x\<close> is the exponent of the binade
  of \<open>x\<close>, not below \<open>-1022\<close> (the subnormal numbers share that exponent); the doubles
  of that binade are the multiples of \<open>2\<^bsup>expo x - 52\<^esup>\<close>. A result of magnitude
  \<open>2\<^sup>1\<^sup>0\<^sup>2\<^sup>4\<close> or more is an infinity, and a nonzero number that rounds to zero keeps
  its sign.
\<close>

definition pow2 :: "int \<Rightarrow> real" where
  "pow2 e = (if 0 \<le> e then 2 ^ nat e else 1 / 2 ^ nat (- e))"

fun expo_up :: "nat \<Rightarrow> real \<Rightarrow> int" where
  "expo_up 0 x = 0"
| "expo_up (Suc n) x = (if x < 2 then 0 else expo_up n (x / 2) + 1)"

fun expo_down :: "nat \<Rightarrow> real \<Rightarrow> int" where
  "expo_down 0 x = 0"
| "expo_down (Suc n) x = (if 1 \<le> x then 0 else expo_down n (x * 2) - 1)"

definition expo :: "real \<Rightarrow> int" where
  "expo x = (if 1 \<le> \<bar>x\<bar> then expo_up 1024 \<bar>x\<bar> else expo_down 1022 \<bar>x\<bar>)"

definition rne :: "real \<Rightarrow> int" where
  "rne y =
     (let f = \<lfloor>y\<rfloor>
      in if y - of_int f < 1 / 2 then f
         else if 1 / 2 < y - of_int f then f + 1
         else if even f then f else f + 1)"

definition round64 :: "real \<Rightarrow> jsnum" where
  "round64 x =
     (let u = pow2 (expo x - 52);
          y = of_int (rne (x / u)) * u
      in if x = 0 then Num 0
         else if 2 ^ 1024 \<le> y then PosInf
         else if y \<le> - (2 ^ 1024) then NegInf
         else if y = 0 then (if x < 0 then NegZero else Num 0)
         else Num y)"

text \<open>
  A decimal literal of the source denotes the nearest double: \<open>lit\<close> as a number,
  \<open>dbl\<close> as its value. \<open>is_double\<close> holds of the reals that are doubles.
\<close>

definition mag :: "jsnum \<Rightarrow> real" where
  "mag a = (case a of Num x \<Rightarrow> x | _ \<Rightarrow> 0)"


definition dbl :: "real \<Rightarrow> real" where
  "dbl x = mag (round64 x)"

definition is_double :: "real \<Rightarrow> bool" where
  "is_double x \<longleftrightarrow> round64 x = Num x"

text \<open>Sign and class of a number; the zero and the infinity of a given sign.\<close>

definition negative :: "jsnum \<Rightarrow> bool" where
  "negative a = (case a of Num x \<Rightarrow> x < 0 | NegZero \<Rightarrow> True | NegInf \<Rightarrow> True | _ \<Rightarrow> False)"

definition is_inf :: "jsnum \<Rightarrow> bool" where
  "is_inf a \<longleftrightarrow> a = PosInf \<or> a = NegInf"

definition signedZero :: "bool \<Rightarrow> jsnum" where
  "signedZero neg = (if neg then NegZero else Num 0)"

definition signedInf :: "bool \<Rightarrow> jsnum" where
  "signedInf neg = (if neg then NegInf else PosInf)"

text \<open>
  The arithmetic operators: the exact result, rounded. An exact zero sum is \<open>+0\<close> unless
  both summands are \<open>-0\<close>; a zero product or quotient has the sign of its operands.
\<close>

definition jadd :: "jsnum \<Rightarrow> jsnum \<Rightarrow> jsnum" where
  "jadd a b =
     (if a = NaN \<or> b = NaN then NaN
      else if is_inf a then (if is_inf b \<and> a \<noteq> b then NaN else a)
      else if is_inf b then b
      else if mag a + mag b = 0 then (if a = NegZero \<and> b = NegZero then NegZero else Num 0)
      else round64 (mag a + mag b))"

definition jneg :: "jsnum \<Rightarrow> jsnum" where
  "jneg a =
     (case a of
        Num x \<Rightarrow> (if x = 0 then NegZero else Num (- x))
      | NegZero \<Rightarrow> Num 0
      | PosInf \<Rightarrow> NegInf
      | NegInf \<Rightarrow> PosInf
      | NaN \<Rightarrow> NaN)"

definition jsub :: "jsnum \<Rightarrow> jsnum \<Rightarrow> jsnum" where
  "jsub a b = jadd a (jneg b)"

definition jmul :: "jsnum \<Rightarrow> jsnum \<Rightarrow> jsnum" where
  "jmul a b =
     (if a = NaN \<or> b = NaN then NaN
      else if is_inf a \<or> is_inf b then
        (if (\<not> is_inf a \<and> mag a = 0) \<or> (\<not> is_inf b \<and> mag b = 0) then NaN
         else signedInf (negative a \<noteq> negative b))
      else if mag a * mag b = 0 then signedZero (negative a \<noteq> negative b)
      else round64 (mag a * mag b))"

definition jdiv :: "jsnum \<Rightarrow> jsnum \<Rightarrow> jsnum" where
  "jdiv a b =
     (if a = NaN \<or> b = NaN then NaN
      else if is_inf a then (if is_inf b then NaN else signedInf (negative a \<noteq> negative b))
      else if is_inf b then signedZero (negative a \<noteq> negative b)
      else if mag b = 0 then (if mag a = 0 then NaN else signedInf (negative a \<noteq> negative b))
      else if mag a = 0 then signedZero (negative a \<noteq> negative b)
      else round64 (mag a / mag b))"

text \<open>\<^verbatim>\<open>a < b\<close> and \<^verbatim>\<open>a >= b\<close>: false as soon as one side is NaN; the two zeros are equal.\<close>

definition jless :: "jsnum \<Rightarrow> jsnum \<Rightarrow> bool" where
  "jless a b \<longleftrightarrow>
     a \<noteq> NaN \<and> b \<noteq> NaN \<and>
     (if a = PosInf \<or> b = NegInf then False
      else if a = NegInf \<or> b = PosInf then True
      else mag a < mag b)"

definition jge :: "jsnum \<Rightarrow> jsnum \<Rightarrow> bool" where
  "jge a b \<longleftrightarrow> a \<noteq> NaN \<and> b \<noteq> NaN \<and> \<not> jless a b"

text \<open>
  \<^verbatim>\<open>Math.min\<close> and \<^verbatim>\<open>Math.max\<close> return NaN if an argument is NaN, and take \<open>-0\<close> to be
  smaller than \<open>+0\<close>.
\<close>

definition Math_min :: "jsnum \<Rightarrow> jsnum \<Rightarrow> jsnum" where
  "Math_min a b =
     (if a = NaN \<or> b = NaN then NaN
      else if jless b a then b
      else if jless a b then a
      else if a = NegZero then a else b)"

definition Math_max :: "jsnum \<Rightarrow> jsnum \<Rightarrow> jsnum" where
  "Math_max a b =
     (if a = NaN \<or> b = NaN then NaN
      else if jless a b then b
      else if jless b a then a
      else if a = NegZero then b else a)"

text \<open>
  \<^verbatim>\<open>Math.floor\<close> yields an integral number or hands a special value through. The sign of
  a zero is dropped: neither the text of the number nor adding one to it shows it.
\<close>

datatype floored = Whole int | FloorPosInf | FloorNegInf | FloorNaN

definition Math_floor :: "jsnum \<Rightarrow> floored" where
  "Math_floor a =
     (case a of
        Num x \<Rightarrow> Whole \<lfloor>x\<rfloor>
      | NegZero \<Rightarrow> Whole 0
      | PosInf \<Rightarrow> FloorPosInf
      | NegInf \<Rightarrow> FloorNegInf
      | NaN \<Rightarrow> FloorNaN)"

section \<open>Boundary conditions\<close>

text \<open>The four loops of \<^verbatim>\<open>applyBoundaryConditions\<close>, in the order of the source.\<close>

definition bottomBoundary :: "HeatEquationParams \<Rightarrow> field \<Rightarrow> nat \<Rightarrow> heap \<Rightarrow> heap" where
  "bottomBoundary p g nx h =
     fold (\<lambda>i hh. let x = real i * dx p in assign hh g i 0 (sin (pi * x / Lx p))) [0..<nx] h"

definition leftBoundary :: "HeatEquationParams \<Rightarrow> field \<Rightarrow> nat \<Rightarrow> heap \<Rightarrow> heap" where
  "leftBoundary p g ny h =
     fold (\<lambda>j hh. assign hh g 0 j (cell hh g 1 j - fL p * dx p)) [0..<ny] h"

definition rightBoundary :: "HeatEquationParams \<Rightarrow> field \<Rightarrow> nat \<Rightarrow> nat \<Rightarrow> heap \<Rightarrow> heap" where
  "rightBoundary p g nx ny h =
     fold (\<lambda>j hh. assign hh g (nx - 1) j (cell hh g (nx - 2) j + fR p * dx p)) [0..<ny] h"

definition topBoundary :: "HeatEquationParams \<Rightarrow> field \<Rightarrow> nat \<Rightarrow> nat \<Rightarrow> heap \<Rightarrow> heap" where
  "topBoundary p g nx ny h =
     fold (\<lambda>i hh. assign hh g i (ny - 1) (cell hh g i (ny - 2) + fT p * dy p)) [0..<nx] h"

definition applyBoundaryConditions :: "HeatEquationParams \<Rightarrow> field \<Rightarrow> heap \<Rightarrow> heap" where
  "applyBoundaryConditions p g h =
     (let nx = length g;
          ny = length (h ! (g ! 0))
      in topBoundary p g nx ny
           (rightBoundary p g nx ny
             (leftBoundary p g ny
               (bottomBoundary p g nx h))))"

section \<open>Initial condition\<close>

text \<open>
  \<^verbatim>\<open>Math.floor(q) + 1\<close>: the sum is taken over the integers. The double sum differs only
  beyond \<open>2\<^sup>5\<^sup>3\<close>, where neither is an array length.
\<close>

definition plusOne :: "floored \<Rightarrow> floored" where
  "plusOne n = (case n of Whole k \<Rightarrow> Whole (k + 1) | _ \<Rightarrow> n)"

text \<open>
  \<^verbatim>\<open>Array(n)\<close> throws a RangeError unless \<open>n\<close> is an integer from \<open>0\<close> to \<open>2\<^sup>3\<^sup>2 - 1\<close>.
\<close>

datatype js_error = RangeError

definition newArray :: "floored \<Rightarrow> js_error + nat" where
  "newArray n =
     (case n of
        Whole k \<Rightarrow> if 0 \<le> k \<and> k < 2 ^ 32 then Inr (nat k) else Inl RangeError
      | _ \<Rightarrow> Inl RangeError)"

text \<open>
  \<^verbatim>\<open>initializeGrid\<close>: the two sizes are floors of double quotients.
  \<^verbatim>\<open>Array(nx).fill(0).map(() => Array(ny).fill(0))\<close> allocates \<open>nx\<close> fresh rows of \<open>ny\<close>
  zeros (\<^verbatim>\<open>Array(ny)\<close> is called once per row, so not at all when \<open>nx = 0\<close>); the double loop
  then assigns every cell.
\<close>

definition initializeGrid :: "HeatEquationParams \<Rightarrow> heap \<Rightarrow> js_error + heap \<times> field" where
  "initializeGrid p h =
     (case newArray (plusOne (Math_floor (jdiv (Num (Lx p)) (Num (dx p))))) of
        Inl e \<Rightarrow> Inl e
      | Inr nx \<Rightarrow>
          if nx = 0 then Inr (h, [])
          else
            (case newArray (plusOne (Math_floor (jdiv (Num (Ly p)) (Num (dy p))))) of
               Inl e \<Rightarrow> Inl e
             | Inr ny \<Rightarrow>
                 (case alloc h (replicate nx (replicate ny 0)) of
                    (h0, g) \<Rightarrow>
                      Inr (fold (\<lambda>i. fold (\<lambda>j hh.
                                  let x = real i * dx p;
                                      y = real j * dy p
                                  in assign hh g i j
                                       (cos (pi * y / (2 * Ly p)) * sin (pi * x / Lx p)))
                                [0..<ny])
                            [0..<nx] h0, g))))"


section \<open>Finite difference solver\<close>











section \<open>Temperature to colour\<close>

text \<open>
  The text a template literal inserts for a floored number: decimal digits for an
  integral number (below the \<open>10\<^sup>2\<^sup>1\<close> from which JavaScript switches to exponents).
\<close>

function digits :: "nat \<Rightarrow> string" where
  "digits n = (if n < 10 then [''0123456789'' ! n] else digits (n div 10) @ [''0123456789'' ! (n mod 10)])"
  by pat_completeness auto
termination
  by (relation "measure (\<lambda>n. n)") auto

declare digits.simps [simp del]

fun toString :: "floored \<Rightarrow> string" where
  "toString (Whole k) = (if k < 0 then ''-'' @ digits (nat (- k)) else digits (nat k))"
| "toString FloorPosInf = ''Infinity''"
| "toString FloorNegInf = ''-Infinity''"
| "toString FloorNaN = ''NaN''"

text \<open>The three channels \<^verbatim>\<open>r\<close>, \<^verbatim>\<open>g\<close>, \<^verbatim>\<open>b\<close> of \<^verbatim>\<open>temperatureToColor\<close>.\<close>

definition colorChannels :: "jsnum \<Rightarrow> jsnum \<Rightarrow> jsnum \<Rightarrow> floored \<times> floored \<times> floored" where
  "colorChannels temp minTemp maxTemp =
     (let normalized =
            Math_max (Num 0) (Math_min (Num 1) (jdiv (jsub temp minTemp) (jsub maxTemp minTemp)))
      in if jless normalized (Num 0.25) then
           (let t = jmul normalized (Num 4)
            in (Math_floor (jadd (jmul (Num 0) (jsub (Num 1) t)) (jmul (Num 0) t)),
                Math_floor (jadd (jmul (Num 0) (jsub (Num 1) t)) (jmul (Num 255) t)),
                Math_floor (jadd (jmul (Num 255) (jsub (Num 1) t)) (jmul (Num 255) t))))
         else if jless normalized (Num 0.5) then
           (let t = jmul (jsub normalized (Num 0.25)) (Num 4)
            in (Math_floor (jadd (jmul (Num 0) (jsub (Num 1) t)) (jmul (Num 0) t)),
                Math_floor (jadd (jmul (Num 255) (jsub (Num 1) t)) (jmul (Num 255) t)),
                Math_floor (jadd (jmul (Num 255) (jsub (Num 1) t)) (jmul (Num 0) t))))
         else if jless normalized (Num 0.75) then
           (let t = jmul (jsub normalized (Num 0.5)) (Num 4)
            in (Math_floor (jadd (jmul (Num 0) (jsub (Num 1) t)) (jmul (Num 255) t)),
                Math_floor (jadd (jmul (Num 255) (jsub (Num 1) t)) (jmul (Num 255) t)),
                Math_floor (jadd (jmul (Num 0) (jsub (Num 1) t)) (jmul (Num 0) t))))
         else
           (let t = jmul (jsub normalized (Num 0.75)) (Num 4)
            in (Math_floor (jadd (jmul (Num 255) (jsub (Num 1) t)) (jmul (Num 255) t)),
                Math_floor (jadd (jmul (Num 255) (jsub (Num 1) t)) (jmul (Num 0) t)),
                Math_floor (jadd (jmul (Num 0) (jsub (Num 1) t)) (jmul (Num 0) t)))))"

definition temperatureToColor :: "jsnum \<Rightarrow> jsnum \<Rightarrow> jsnum \<Rightarrow> string" where
  "temperatureToColor temp minTemp maxTemp =
     (case colorChannels temp minTemp maxTemp of
        (r, g, b) \<Rightarrow> ''rgb('' @ toString r @ '', '' @ toString g @ '', '' @ toString b @ '')'')"

section \<open>Simulation state and the animation step\<close>

record SimulationState =
  u :: field
  time :: jsnum
  isRunning :: bool
  animationId :: "nat option"



definition initializeSimulation ::
    "HeatEquationParams \<Rightarrow> heap \<Rightarrow> js_error + heap \<times> SimulationState" where
  "initializeSimulation p h =
     (case initializeGrid p h of
        Inl e \<Rightarrow> Inl e
      | Inr (h1, initialGrid) \<Rightarrow>
          Inr (applyBoundaryConditions p initialGrid h1,
               \<lparr>u = initialGrid, time = Num 0, isRunning = False, animationId = None\<rparr>))"

definition startSimulation :: "heap \<times> SimulationState \<Rightarrow> heap \<times> SimulationState" where
  "startSimulation hs = (case hs of (h, prev) \<Rightarrow> (h, prev\<lparr>isRunning := True\<rparr>))"

section \<open>Cell values after each boundary rule\<close>

text \<open>
  What each rule of \<^verbatim>\<open>applyBoundaryConditions\<close> does to the cell values \<open>c i j\<close>
  of a field; used to describe the store after the loops.
\<close>

definition afterBottom ::
    "HeatEquationParams \<Rightarrow> (nat \<Rightarrow> nat \<Rightarrow> real) \<Rightarrow> nat \<Rightarrow> nat \<Rightarrow> real" where
  "afterBottom p c i j = (if j = 0 then sin (pi * (real i * dx p) / Lx p) else c i j)"

definition afterLeft ::
    "HeatEquationParams \<Rightarrow> (nat \<Rightarrow> nat \<Rightarrow> real) \<Rightarrow> nat \<Rightarrow> nat \<Rightarrow> real" where
  "afterLeft p c i j = (if i = 0 then c 1 j - fL p * dx p else c i j)"

definition afterRight ::
    "HeatEquationParams \<Rightarrow> nat \<Rightarrow> (nat \<Rightarrow> nat \<Rightarrow> real) \<Rightarrow> nat \<Rightarrow> nat \<Rightarrow> real" where
  "afterRight p nx c i j = (if i = nx - 1 then c (nx - 2) j + fR p * dx p else c i j)"

definition afterTop ::
    "HeatEquationParams \<Rightarrow> nat \<Rightarrow> (nat \<Rightarrow> nat \<Rightarrow> real) \<Rightarrow> nat \<Rightarrow> nat \<Rightarrow> real" where
  "afterTop p ny c i j = (if j = ny - 1 then c i (ny - 2) + fT p * dy p else c i j)"

definition afterBoundary ::
    "HeatEquationParams \<Rightarrow> nat \<Rightarrow> nat \<Rightarrow> (nat \<Rightarrow> nat \<Rightarrow> real) \<Rightarrow> nat \<Rightarrow> nat \<Rightarrow> real" where
  "afterBoundary p nx ny c =
     afterTop p ny (afterRight p nx (afterLeft p (afterBottom p c)))"

section \<open>Example inputs\<close>

text \<open>Parameters of a coarse \<open>3 \<times> 2\<close> grid and of a narrow \<open>2 \<times> 3\<close> grid.\<close>

definition coarseParams :: HeatEquationParams where
  "coarseParams =
     \<lparr>Lx = 2, Ly = 1, fL = 0, fR = 0, fT = 0, alpha = 0.1, dt = 0.001,
      dx = 1, dy = 1, totalTime = 5, gridResolution = 50\<rparr>"

definition narrowParams :: HeatEquationParams where
  "narrowParams =
     \<lparr>Lx = 1, Ly = 2, fL = 0, fR = 1, fT = 0, alpha = 0.1, dt = 0.001,
      dx = 1, dy = 1, totalTime = 5, gridResolution = 50\<rparr>"




section \<open>The Neumann assignments in double arithmetic\<close>



section \<open>The default clock on integers\<close>

text \<open>
  With the default \<open>dt\<close> every elapsed time of a run is a multiple of \<open>2\<^sup>-\<^sup>6\<^sup>2\<close>. On these
  multiples, rounding a sum to a double is rounding an integer to a multiple of \<open>m\<close>, ties
  to even, where \<open>m\<close> is the power of two that leaves 53 bits. \<open>iclock\<close> is the clock of
  \<^verbatim>\<open>animate\<close> in these units: \<open>dt\<close> is \<open>4611686018427388\<close> and \<open>totalTime\<close> is \<open>5 \<cdot> 2\<^sup>6\<^sup>2\<close>.
\<close>

definition rnd :: "int \<Rightarrow> int \<Rightarrow> int" where
  "rnd m S =
     (let q = S div m;
          r = S mod m
      in (if 2 * r < m then q else if m < 2 * r then q + 1 else if even q then q else q + 1) * m)"

definition iround :: "int \<Rightarrow> int" where
  "iround S =
     (if S < 2 ^ 53 then S
      else if S < 2 ^ 54 then rnd (2 ^ 1) S
      else if S < 2 ^ 55 then rnd (2 ^ 2) S
      else if S < 2 ^ 56 then rnd (2 ^ 3) S
      else if S < 2 ^ 57 then rnd (2 ^ 4) S
      else if S < 2 ^ 58 then rnd (2 ^ 5) S
      else if S < 2 ^ 59 then rnd (2 ^ 6) S
      else if S < 2 ^ 60 then rnd (2 ^ 7) S
      else if S < 2 ^ 61 then rnd (2 ^ 8) S
      else if S < 2 ^ 62 then rnd (2 ^ 9) S
      else if S < 2 ^ 63 then rnd (2 ^ 10) S
      else if S < 2 ^ 64 then rnd (2 ^ 11) S
      else rnd (2 ^ 12) S)"

definition iclock :: "int \<times> bool \<Rightarrow> int \<times> bool" where
  "iclock tr =
     (case tr of (T, r) \<Rightarrow>
        if \<not> r then (T, r)
        else
          let T' = iround (T + 4611686018427388)
          in if 5 * 2 ^ 62 \<le> T' then (0, False) else (T', True))"

section \<open>Store lemmas\<close>

lemma length_assign [simp]: "length (assign h g i j v) = length h"
  by (simp add: assign_def)

lemma length_row_assign [simp]: "length (assign h g i j v ! a) = length (h ! a)"
proof (cases "g ! i < length h")
  case True
  then show ?thesis by (simp add: assign_def nth_list_update)
next
  case False
  then show ?thesis by (simp add: assign_def list_update_beyond)
qed

lemma is_field_assign [simp]: "is_field nx ny (assign h g i j v) g' = is_field nx ny h g'"
  by (simp add: is_field_def)

lemma cell_assign:
  assumes "is_field nx ny h g" "i < nx" "i' < nx" "j < ny"
  shows "cell (assign h g i j v) g i' j' = (if i' = i \<and> j' = j then v else cell h g i' j')"
proof -
  from assms have d: "g ! i' = g ! i \<longleftrightarrow> i' = i"
    by (simp add: is_field_def nth_eq_iff_index_eq)
  from assms have r: "g ! i < length h" "j < length (h ! (g ! i))"
    by (simp_all add: is_field_def)
  show ?thesis using d r
    by (auto simp: cell_def assign_def nth_list_update)
qed

lemma assign_other: "a \<noteq> g ! i \<Longrightarrow> assign h g i j v ! a = h ! a"
  by (simp add: assign_def)

lemma assign_frame: "is_field nx ny h g \<Longrightarrow> i < nx \<Longrightarrow> a \<notin> set g \<Longrightarrow> assign h g i j v ! a = h ! a"
  by (rule assign_other) (auto simp: is_field_def)


lemma fold_assign_length [simp]:
  "length (fold (\<lambda>k hh. assign hh g (ci k) (cj k) (val k hh)) ks h) = length h"
  by (induction ks arbitrary: h) simp_all

lemma fold_assign_is_field [simp]:
  "is_field nx ny (fold (\<lambda>k hh. assign hh g (ci k) (cj k) (val k hh)) ks h) g' = is_field nx ny h g'"
  by (induction ks arbitrary: h) simp_all

lemma fold_assign_frame:
  assumes "is_field nx ny h g" "\<forall>k \<in> set ks. ci k < nx" "a \<notin> set g"
  shows "fold (\<lambda>k hh. assign hh g (ci k) (cj k) (val k hh)) ks h ! a = h ! a"
  using assms
proof (induction ks arbitrary: h)
  case Nil
  then show ?case by simp
next
  case (Cons k ks)
  have "fold (\<lambda>k hh. assign hh g (ci k) (cj k) (val k hh)) ks
          (assign h g (ci k) (cj k) (val k h)) ! a = assign h g (ci k) (cj k) (val k h) ! a"
    using Cons.prems by (intro Cons.IH) simp_all
  also have "\<dots> = h ! a"
    using Cons.prems by (intro assign_frame [where nx = nx and ny = ny]) simp_all
  finally show ?case by simp
qed

section \<open>The boundary loops, cell by cell\<close>

lemma bottomBoundary_is_field [simp]:
  "is_field nx ny (bottomBoundary p g n h) g' = is_field nx ny h g'"
  by (simp add: bottomBoundary_def Let_def)

lemma leftBoundary_is_field [simp]:
  "is_field nx ny (leftBoundary p g n h) g' = is_field nx ny h g'"
  by (simp add: leftBoundary_def)

lemma rightBoundary_is_field [simp]:
  "is_field nx ny (rightBoundary p g m n h) g' = is_field nx ny h g'"
  by (simp add: rightBoundary_def)

lemma topBoundary_is_field [simp]:
  "is_field nx ny (topBoundary p g n m h) g' = is_field nx ny h g'"
  by (simp add: topBoundary_def)

lemma bottomBoundary_Suc:
  "bottomBoundary p g (Suc n) h =
     assign (bottomBoundary p g n h) g n 0 (sin (pi * (real n * dx p) / Lx p))"
  by (simp add: bottomBoundary_def Let_def)

lemma leftBoundary_Suc:
  "leftBoundary p g (Suc n) h =
     assign (leftBoundary p g n h) g 0 n (cell (leftBoundary p g n h) g 1 n - fL p * dx p)"
  by (simp add: leftBoundary_def)

lemma rightBoundary_Suc:
  "rightBoundary p g nx (Suc n) h =
     assign (rightBoundary p g nx n h) g (nx - 1) n
       (cell (rightBoundary p g nx n h) g (nx - 2) n + fR p * dx p)"
  by (simp add: rightBoundary_def)

lemma topBoundary_Suc:
  "topBoundary p g (Suc n) ny h =
     assign (topBoundary p g n ny h) g n (ny - 1)
       (cell (topBoundary p g n ny h) g n (ny - 2) + fT p * dy p)"
  by (simp add: topBoundary_def)

lemma cell_bottomBoundary:
  assumes "is_field nx ny h g" "0 < ny" "n \<le> nx" "i < nx"
  shows "cell (bottomBoundary p g n h) g i j =
           (if j = 0 \<and> i < n then sin (pi * (real i * dx p) / Lx p) else cell h g i j)"
  using assms(3) assms(4)
proof (induction n arbitrary: i j)
  case 0
  then show ?case by (simp add: bottomBoundary_def)
next
  case (Suc n)
  then have "n < nx" by simp
  with Suc assms(1) assms(2) show ?case
    by (simp add: bottomBoundary_Suc cell_assign [where nx = nx and ny = ny] less_Suc_eq)
qed

lemma cell_leftBoundary:
  assumes "is_field nx ny h g" "2 \<le> nx" "n \<le> ny" "i < nx"
  shows "cell (leftBoundary p g n h) g i j =
           (if i = 0 \<and> j < n then cell h g 1 j - fL p * dx p else cell h g i j)"
  using assms(3) assms(4)
proof (induction n arbitrary: i j)
  case 0
  then show ?case by (simp add: leftBoundary_def)
next
  case (Suc n)
  from Suc.prems assms(2) have "n < ny" "0 < nx" "1 < nx" by simp_all
  with Suc assms(1) show ?case
    by (simp add: leftBoundary_Suc cell_assign [where nx = nx and ny = ny] less_Suc_eq)
qed

lemma cell_rightBoundary:
  assumes "is_field nx ny h g" "2 \<le> nx" "n \<le> ny" "i < nx"
  shows "cell (rightBoundary p g nx n h) g i j =
           (if i = nx - 1 \<and> j < n then cell h g (nx - 2) j + fR p * dx p else cell h g i j)"
  using assms(3) assms(4)
proof (induction n arbitrary: i j)
  case 0
  then show ?case by (simp add: rightBoundary_def)
next
  case (Suc n)
  from Suc.prems assms(2) have "n < ny" "nx - 1 < nx" "nx - 2 < nx" "nx - 2 \<noteq> nx - 1"
    by simp_all
  with Suc assms(1) show ?case
    by (auto simp: rightBoundary_Suc cell_assign [where nx = nx and ny = ny] less_Suc_eq)
qed

lemma cell_topBoundary:
  assumes "is_field nx ny h g" "2 \<le> ny" "n \<le> nx" "i < nx"
  shows "cell (topBoundary p g n ny h) g i j =
           (if j = ny - 1 \<and> i < n then cell h g i (ny - 2) + fT p * dy p else cell h g i j)"
  using assms(3) assms(4)
proof (induction n arbitrary: i j)
  case 0
  then show ?case by (simp add: topBoundary_def)
next
  case (Suc n)
  from Suc.prems assms(2) have "n < nx" "ny - 1 < ny" "ny - 2 \<noteq> ny - 1" by simp_all
  with Suc assms(1) show ?case
    by (simp add: topBoundary_Suc cell_assign [where nx = nx and ny = ny] less_Suc_eq)
qed

section \<open>Boundary conditions: results\<close>


lemma applyBoundaryConditions_is_field [simp]:
  "is_field nx ny (applyBoundaryConditions p g h) g' = is_field nx ny h g'"
  by (simp add: applyBoundaryConditions_def Let_def)

lemma applyBoundaryConditions_length [simp]:
  "length (applyBoundaryConditions p g h) = length h"
  by (simp add: applyBoundaryConditions_def Let_def bottomBoundary_def leftBoundary_def
      rightBoundary_def topBoundary_def)


lemma applyBoundaryConditions_frame:
  assumes "is_field nx ny h g" "2 \<le> nx" "a \<notin> set g"
  shows "applyBoundaryConditions p g h ! a = h ! a"
proof -
  let ?ny = "length (h ! (g ! 0))"
  let ?h1 = "bottomBoundary p g nx h"
  let ?h2 = "leftBoundary p g ?ny ?h1"
  let ?h3 = "rightBoundary p g nx ?ny ?h2"
  from assms have nx: "length g = nx" "0 < nx" "nx - 1 < nx" by (simp_all add: is_field_def)
  have "topBoundary p g nx ?ny ?h3 ! a = ?h3 ! a"
    unfolding topBoundary_def using assms nx
    by (intro fold_assign_frame [where nx = nx and ny = ny]) simp_all
  also have "\<dots> = ?h2 ! a"
    unfolding rightBoundary_def using assms nx
    by (intro fold_assign_frame [where nx = nx and ny = ny]) simp_all
  also have "\<dots> = ?h1 ! a"
    unfolding leftBoundary_def using assms nx
    by (intro fold_assign_frame [where nx = nx and ny = ny]) simp_all
  also have "\<dots> = h ! a"
    unfolding bottomBoundary_def Let_def using assms nx
    by (intro fold_assign_frame [where nx = nx and ny = ny]) simp_all
  finally show ?thesis using nx by (simp add: applyBoundaryConditions_def Let_def)
qed

lemma cell_applyBoundaryConditions:
  assumes "is_field nx ny h g" "2 \<le> nx" "2 \<le> ny" "i < nx" "j < ny"
  shows "cell (applyBoundaryConditions p g h) g i j = afterBoundary p nx ny (cell h g) i j"
proof -
  from assms have nx: "length g = nx" "length (h ! (g ! 0)) = ny"
    by (simp_all add: is_field_def)
  from assms have ix: "0 < ny" "Suc 0 < nx" "nx - 2 < nx" "ny - 2 < ny"
    by simp_all
  show ?thesis using assms ix
    by (simp add: applyBoundaryConditions_def Let_def nx afterBoundary_def
        cell_topBoundary [where nx = nx and ny = ny]
        cell_rightBoundary [where nx = nx and ny = ny]
        cell_leftBoundary [where nx = nx and ny = ny]
        cell_bottomBoundary [where nx = nx and ny = ny]
        afterTop_def afterRight_def afterLeft_def afterBottom_def)
qed


lemmas after_defs = afterBoundary_def afterTop_def afterRight_def afterLeft_def afterBottom_def

text \<open>
  Claim C3, amended. After \<^verbatim>\<open>applyBoundaryConditions\<close> the bottom row holds
  \<open>sin(\<pi>\<cdot>(i\<cdot>dx)/Lx)\<close> at every \<open>i\<close> from \<open>1\<close> to \<open>nx-2\<close>. The two corners are
  overwritten by the left and right loops, which run after the bottom loop:
  \<open>u[0][0] = sin(\<pi>\<cdot>dx/Lx) - fL\<cdot>dx\<close> and \<open>u[nx-1][0] = u[nx-2][0] + fR\<cdot>dx\<close>.
\<close>

theorem boundary_bottom_row:
  assumes "is_field nx ny h g" "2 \<le> nx" "2 \<le> ny"
  shows "(\<forall>i. 1 \<le> i \<and> i \<le> nx - 2 \<longrightarrow>
            cell (applyBoundaryConditions p g h) g i 0 = sin (pi * (real i * dx p) / Lx p)) \<and>
         cell (applyBoundaryConditions p g h) g 0 0 = sin (pi * (real 1 * dx p) / Lx p) - fL p * dx p \<and>
         cell (applyBoundaryConditions p g h) g (nx - 1) 0 =
           cell (applyBoundaryConditions p g h) g (nx - 2) 0 + fR p * dx p"
proof -
  from assms have ix: "0 < nx" "1 < nx" "nx - 1 < nx" "nx - 2 < nx" "0 < ny"
     "nx - 2 \<noteq> nx - 1" "ny - 1 \<noteq> 0" "nx - 1 \<noteq> 0"
    by simp_all
  note c = cell_applyBoundaryConditions [OF assms]
  have "cell (applyBoundaryConditions p g h) g i 0 = sin (pi * (real i * dx p) / Lx p)"
    if "1 \<le> i" "i \<le> nx - 2" for i
  proof -
    from that assms have "i < nx" "i \<noteq> 0" "i \<noteq> nx - 1" by simp_all
    with ix show ?thesis by (simp add: c after_defs)
  qed
  moreover have "cell (applyBoundaryConditions p g h) g 0 0 =
      sin (pi * (real 1 * dx p) / Lx p) - fL p * dx p"
    using ix by (simp add: c after_defs)
  moreover have "cell (applyBoundaryConditions p g h) g (nx - 1) 0 =
      cell (applyBoundaryConditions p g h) g (nx - 2) 0 + fR p * dx p"
    using ix by (simp add: c after_defs)
  ultimately show ?thesis by blast
qed

text \<open>
  Claim C3 as stated fails at the corner \<open>i = 0\<close>: on a \<open>3 \<times> 2\<close> field with
  \<open>Lx = 2\<close>, \<open>dx = 1\<close>, \<open>fL = 0\<close> the cell \<open>u[0][0]\<close> ends as \<open>u[1][0] = sin(\<pi>/2) = 1\<close>,
  while \<open>sin(\<pi>\<cdot>(0\<cdot>dx)/Lx) = 0\<close>.
\<close>

theorem boundary_bottom_row_counterexample:
  "is_field 3 2 [[0, 0], [0, 0], [0, 0]] [0, 1, 2] \<and>
   cell (applyBoundaryConditions coarseParams [0, 1, 2] [[0, 0], [0, 0], [0, 0]]) [0, 1, 2] 0 0 = 1 \<and>
   sin (pi * (real 0 * dx coarseParams) / Lx coarseParams) = 0"
proof -
  have f: "is_field 3 2 [[0, 0], [0, 0], [0, 0]] [0, 1, 2]"
    by (simp add: is_field_def)
  have "cell (applyBoundaryConditions coarseParams [0, 1, 2] [[0, 0], [0, 0], [0, 0]]) [0, 1, 2] 0 0 =
      afterBoundary coarseParams 3 2 (cell [[0, 0], [0, 0], [0, 0]] [0, 1, 2]) 0 0"
    by (rule cell_applyBoundaryConditions [OF f]) simp_all
  also have "\<dots> = 1"
    by (simp add: after_defs coarseParams_def)
  finally show ?thesis
    using f by (simp add: coarseParams_def)
qed


theorem boundary_bottom_row_witness:
  "cell (applyBoundaryConditions coarseParams [0, 1, 2] [[5, 6], [7, 8], [9, 10]]) [0, 1, 2] 1 0 =
     sin (pi * (real 1 * dx coarseParams) / Lx coarseParams) \<and>
   cell (applyBoundaryConditions coarseParams [0, 1, 2] [[5, 6], [7, 8], [9, 10]]) [0, 1, 2] 0 0 =
     sin (pi * (real 1 * dx coarseParams) / Lx coarseParams) - fL coarseParams * dx coarseParams"
  using boundary_bottom_row [of 3 2 "[[5, 6], [7, 8], [9, 10]]" "[0, 1, 2]" coarseParams]
  by (simp add: is_field_def)

lemma afterBoundary_idem:
  assumes "3 \<le> nx" "2 \<le> ny" "i < nx" "j < ny"
    and c': "\<And>i j. i < nx \<Longrightarrow> j < ny \<Longrightarrow> c' i j = afterBoundary p nx ny c i j"
  shows "afterBoundary p nx ny c' i j = afterBoundary p nx ny c i j"
proof -
  from assms have ix: "0 < nx" "1 < nx" "nx - 1 < nx" "nx - 2 < nx"
    "nx - 2 \<noteq> 0" "nx - 2 \<noteq> nx - 1" "nx - 1 \<noteq> 1" "ny - 2 < ny" "ny - 2 \<noteq> ny - 1"
    "0 < ny" "ny - 1 \<noteq> 0"
    by simp_all
  show ?thesis
    unfolding afterBoundary_def [of p nx ny c'] afterTop_def afterRight_def afterLeft_def afterBottom_def
    using ix assms(3,4)
    by (simp add: c') (auto simp: after_defs)
qed

text \<open>
  Claim C6, amended. On a field with \<open>nx \<ge> 3\<close> and \<open>ny \<ge> 2\<close>, applying
  \<^verbatim>\<open>applyBoundaryConditions\<close> a second time with the same parameters leaves the whole
  store, and so the field, as the first application left it.
\<close>

theorem boundary_idempotent:
  assumes "is_field nx ny h g" "3 \<le> nx" "2 \<le> ny"
  shows "applyBoundaryConditions p g (applyBoundaryConditions p g h) =
         applyBoundaryConditions p g h"
proof (rule nth_equalityI)
  show "length (applyBoundaryConditions p g (applyBoundaryConditions p g h)) =
        length (applyBoundaryConditions p g h)"
    by simp
next
  fix a
  assume "a < length (applyBoundaryConditions p g (applyBoundaryConditions p g h))"
  let ?h1 = "applyBoundaryConditions p g h"
  let ?h2 = "applyBoundaryConditions p g ?h1"
  from assms have nx2: "2 \<le> nx" by simp
  have f1: "is_field nx ny ?h1 g" using assms(1) by simp
  show "?h2 ! a = ?h1 ! a"
  proof (cases "a \<in> set g")
    case False
    then show ?thesis
      using applyBoundaryConditions_frame [OF f1 nx2 False] by simp
  next
    case True
    then obtain i where i: "i < nx" "a = g ! i"
      using assms(1) by (auto simp: is_field_def in_set_conv_nth)
    have f2: "is_field nx ny ?h2 g" using assms(1) by simp
    have len: "length (?h2 ! a) = ny" "length (?h1 ! a) = ny"
      using f2 f1 True by (simp_all only: is_field_def)
    show ?thesis
    proof (rule nth_equalityI)
      show "length (?h2 ! a) = length (?h1 ! a)" using len by simp
    next
      fix j
      assume "j < length (?h2 ! a)"
      then have j: "j < ny" using len by simp
      have "cell ?h2 g i j = afterBoundary p nx ny (cell ?h1 g) i j"
        using f1 nx2 assms(3) i(1) j by (rule cell_applyBoundaryConditions)
      also have "\<dots> = afterBoundary p nx ny (cell h g) i j"
        using assms(2,3) i(1) j
        by (rule afterBoundary_idem)
           (rule cell_applyBoundaryConditions [OF assms(1) nx2 assms(3)])
      also have "\<dots> = cell ?h1 g i j"
        using assms(1) nx2 assms(3) i(1) j by (rule cell_applyBoundaryConditions [symmetric])
      finally show "?h2 ! a ! j = ?h1 ! a ! j"
        by (simp add: cell_def i(2))
    qed
  qed
qed

theorem boundary_idempotent_witness:
  "applyBoundaryConditions coarseParams [0, 1, 2]
     (applyBoundaryConditions coarseParams [0, 1, 2] [[5, 6], [7, 8], [9, 10]]) =
   applyBoundaryConditions coarseParams [0, 1, 2] [[5, 6], [7, 8], [9, 10]]"
  using boundary_idempotent [of 3 2 "[[5, 6], [7, 8], [9, 10]]" "[0, 1, 2]" coarseParams]
  by (simp add: is_field_def)

text \<open>
  Claim C6 as stated fails for \<open>nx = 2\<close>: the left loop copies column \<open>1\<close> into column
  \<open>0\<close> and the right loop copies column \<open>0\<close> back into column \<open>1\<close> with \<open>fR\<cdot>dx\<close> added,
  so every application adds \<open>(fR - fL)\<cdot>dx\<close> to \<open>u[1][j]\<close> for \<open>0 < j < ny-1\<close>. On a
  \<open>2 \<times> 3\<close> field of zeros with \<open>fL = 0\<close>, \<open>fR = 1\<close>, \<open>dx = 1\<close> the cell \<open>u[1][1]\<close> is \<open>1\<close>
  after one application and \<open>2\<close> after two.
\<close>

theorem boundary_idempotent_counterexample:
  "is_field 2 3 [[0, 0, 0], [0, 0, 0]] [0, 1] \<and>
   cell (applyBoundaryConditions narrowParams [0, 1] [[0, 0, 0], [0, 0, 0]]) [0, 1] 1 1 = 1 \<and>
   cell (applyBoundaryConditions narrowParams [0, 1]
           (applyBoundaryConditions narrowParams [0, 1] [[0, 0, 0], [0, 0, 0]])) [0, 1] 1 1 = 2"
proof -
  let ?h = "[[0, 0, 0], [0, 0, 0]] :: heap"
  let ?g = "[0, 1] :: field"
  let ?h1 = "applyBoundaryConditions narrowParams ?g ?h"
  have f: "is_field 2 3 ?h ?g"
    by (simp add: is_field_def)
  have f1: "is_field 2 3 ?h1 ?g"
    using f by simp
  have c: "cell ?h1 ?g i j = afterBoundary narrowParams 2 3 (cell ?h ?g) i j"
    if "i < 2" "j < 3" for i j
    using f _ _ that by (rule cell_applyBoundaryConditions) simp_all
  have "cell ?h1 ?g 1 1 = afterBoundary narrowParams 2 3 (cell ?h ?g) 1 1"
    by (rule c) simp_all
  also have "\<dots> = 1"
    by (simp add: after_defs narrowParams_def cell_def)
  finally have one: "cell ?h1 ?g 1 1 = 1" .
  have "cell (applyBoundaryConditions narrowParams ?g ?h1) ?g 1 1 =
      afterBoundary narrowParams 2 3 (cell ?h1 ?g) 1 1"
    using f1 by (rule cell_applyBoundaryConditions) simp_all
  also have "\<dots> = 2"
    using one by (simp add: after_defs narrowParams_def)
  finally show ?thesis using f one by simp
qed

section \<open>Loops that assign the cells of a field\<close>



lemma fold_fold_assign_length [simp]:
  "length (fold (\<lambda>i. fold (\<lambda>j hh. assign hh g (ci i j) (cj i j) (val i j hh)) (js i)) ks h) = length h"
  by (induction ks arbitrary: h) simp_all

lemma fold_fold_assign_is_field [simp]:
  "is_field nx ny (fold (\<lambda>i. fold (\<lambda>j hh. assign hh g (ci i j) (cj i j) (val i j hh)) (js i)) ks h) g'
     = is_field nx ny h g'"
  by (induction ks arbitrary: h) simp_all





section \<open>The solver, cell by cell\<close>







lemma alloc_length:
  assumes "alloc h rs = (h', g)"
  shows "length h' = length h + length rs"
  using assms by (auto simp: alloc_def)




section \<open>The solver: results\<close>






section \<open>Rounding to a double\<close>


lemma pow2_pos [simp]: "0 < pow2 e"
  by (simp add: pow2_def)

lemma pow2_nonneg [simp]: "0 \<le> pow2 e"
  by (simp add: pow2_def)

lemma pow2_nat: "pow2 (int n) = 2 ^ n"
  by (simp add: pow2_def)

lemma pow2_add: "pow2 (a + b) = pow2 a * pow2 b"
proof -
  have "pow2 e = 2 powr (of_int e)" for e
    by (simp add: pow2_def powr_realpow [symmetric] powr_minus divide_inverse)
  then show ?thesis by (simp add: powr_add)
qed

lemma pow2_Suc: "pow2 (e + 1) = 2 * pow2 e"
  using pow2_add [of e 1] by (simp add: pow2_def)

lemma pow2_mono: "a \<le> b \<Longrightarrow> pow2 a \<le> pow2 b"
proof -
  assume "a \<le> b"
  then obtain k where "b = a + int k" by (metis zle_iff_zadd)
  then have "pow2 b = pow2 a * 2 ^ k" by (simp add: pow2_add pow2_nat)
  moreover have "pow2 a * 1 \<le> pow2 a * 2 ^ k"
    by (intro mult_left_mono) (simp_all add: less_imp_le)
  ultimately show ?thesis by simp
qed

lemma expo_up_range: "0 \<le> expo_up n x \<and> expo_up n x \<le> int n"
  by (induction n arbitrary: x) auto


lemma expo_up_eq:
  "pow2 (int m) \<le> x \<Longrightarrow> x < pow2 (int m + 1) \<Longrightarrow> m \<le> n \<Longrightarrow> expo_up n x = int m"
proof (induction n arbitrary: x m)
  case 0
  then show ?case by simp
next
  case (Suc n)
  show ?case
  proof (cases "x < 2")
    case True
    have "m = 0"
    proof (rule ccontr)
      assume "m \<noteq> 0"
      then have "pow2 1 \<le> pow2 (int m)" by (intro pow2_mono) simp
      with Suc.prems(1) True show False by (simp add: pow2_def)
    qed
    with True show ?thesis by simp
  next
    case False
    have "m \<noteq> 0"
    proof
      assume "m = 0"
      with Suc.prems(2) False show False by (simp add: pow2_def)
    qed
    then obtain k where k: "m = Suc k" by (cases m) auto
    have "int (Suc k) = int k + 1" by simp
    then have "pow2 (int (Suc k)) = 2 * pow2 (int k)" "pow2 (int (Suc k) + 1) = 2 * pow2 (int k + 1)"
      by (simp_all only: pow2_Suc)
    with Suc.prems k have "pow2 (int k) \<le> x / 2" "x / 2 < pow2 (int k + 1)" "k \<le> n"
      by simp_all
    then have "expo_up n (x / 2) = int k" by (rule Suc.IH)
    with False k show ?thesis by simp
  qed
qed

lemma expo_down_ge1: "1 \<le> x \<Longrightarrow> expo_down n x = 0"
  by (cases n) simp_all

lemma expo_down_eq:
  "pow2 (- int m) \<le> x \<Longrightarrow> x < pow2 (- int m + 1) \<Longrightarrow> m \<le> n \<Longrightarrow> expo_down n x = - int m"
proof (induction n arbitrary: x m)
  case 0
  then show ?case by simp
next
  case (Suc n)
  show ?case
  proof (cases "1 \<le> x")
    case True
    have "m = 0"
    proof (rule ccontr)
      assume "m \<noteq> 0"
      then have "pow2 (- int m + 1) \<le> pow2 0" by (intro pow2_mono) simp
      with Suc.prems(2) True show False by (simp add: pow2_def)
    qed
    with True show ?thesis by simp
  next
    case False
    have "m \<noteq> 0"
    proof
      assume "m = 0"
      with Suc.prems(1) False show False by (simp add: pow2_def)
    qed
    then obtain k where k: "m = Suc k" by (cases m) auto
    have e: "- int k = - int (Suc k) + 1" "- int k + 1 = (- int (Suc k) + 1) + 1" by simp_all
    have "pow2 (- int k) = 2 * pow2 (- int (Suc k))"
      "pow2 (- int k + 1) = 2 * pow2 (- int (Suc k) + 1)"
      unfolding e by (simp_all only: pow2_Suc)
    with Suc.prems k have "pow2 (- int k) \<le> x * 2" "x * 2 < pow2 (- int k + 1)" "k \<le> n"
      by simp_all
    then have "expo_down n (x * 2) = - int k" by (rule Suc.IH)
    with False k show ?thesis by simp
  qed
qed

lemma expo_eq:
  assumes "pow2 e \<le> \<bar>x\<bar>" "\<bar>x\<bar> < pow2 (e + 1)" "- 1022 \<le> e" "e \<le> 1024"
  shows "expo x = e"
proof (cases "0 \<le> e")
  case True
  then have "pow2 0 \<le> pow2 e" by (intro pow2_mono)
  with assms(1) have x1: "1 \<le> \<bar>x\<bar>" by (simp add: pow2_def)
  from True have "e = int (nat e)" by simp
  then obtain m where m: "e = int m" ..
  with assms(4) have "m \<le> 1024" by simp
  with assms(1,2) m have "expo_up 1024 \<bar>x\<bar> = int m" by (intro expo_up_eq) simp_all
  with x1 m show ?thesis by (simp add: expo_def)
next
  case False
  then have "pow2 (e + 1) \<le> pow2 0" by (intro pow2_mono) simp
  with assms(2) have x1: "\<not> 1 \<le> \<bar>x\<bar>" by (simp add: pow2_def)
  from False have "e = - int (nat (- e))" by simp
  then obtain m where m: "e = - int m" ..
  with assms(3) have "m \<le> 1022" by simp
  with assms(1,2) m have "expo_down 1022 \<bar>x\<bar> = - int m" by (intro expo_down_eq) simp_all
  with x1 m show ?thesis by (simp add: expo_def)
qed

lemma rne_bounds: "\<lfloor>y\<rfloor> \<le> rne y \<and> rne y \<le> \<lfloor>y\<rfloor> + 1"
  by (simp add: rne_def Let_def)

lemma rne_of_int [simp]: "rne (of_int k) = k"
  by (simp add: rne_def)

lemma rne_ge: "of_int k \<le> y \<Longrightarrow> k \<le> rne y"
proof -
  assume "of_int k \<le> y"
  then have "k \<le> \<lfloor>y\<rfloor>" by (simp add: le_floor_iff)
  with rne_bounds [of y] show ?thesis by linarith
qed

lemma rne_le: "y \<le> of_int k \<Longrightarrow> rne y \<le> k"
proof -
  assume a: "y \<le> of_int k"
  show ?thesis
  proof (cases "y = of_int k")
    case True
    then show ?thesis by simp
  next
    case False
    with a have "y < of_int k" by simp
    then have "\<lfloor>y\<rfloor> < k" by (simp add: floor_less_iff)
    with rne_bounds [of y] show ?thesis by linarith
  qed
qed


lemma pow2_of_int: "0 \<le> e \<Longrightarrow> pow2 e = of_int (2 ^ nat e)"
  by (simp add: pow2_def)

lemma pow2_split: "pow2 e = pow2 (e - k) * pow2 k"
  using pow2_add [of "e - k" k] by simp

lemma round64_pos:
  assumes "0 < x"
  shows "round64 x =
     (let y = of_int (rne (x / pow2 (expo x - 52))) * pow2 (expo x - 52)
      in if 2 ^ 1024 \<le> y then PosInf else if y = 0 then Num 0 else Num y)"
proof -
  have "0 \<le> x / pow2 (expo x - 52)" using assms by simp
  then have "0 \<le> rne (x / pow2 (expo x - 52))" by (intro rne_ge) simp
  then have "0 \<le> of_int (rne (x / pow2 (expo x - 52))) * pow2 (expo x - 52)" by simp
  then have "\<not> of_int (rne (x / pow2 (expo x - 52))) * pow2 (expo x - 52) \<le> - (2 ^ 1024)"
    by (smt (verit) zero_less_power)
  with assms show ?thesis by (simp add: round64_def Let_def)
qed

lemma round64_grid:
  assumes "pow2 e \<le> x" "x < pow2 (e + 1)" "- 1022 \<le> e" "e \<le> 1022"
  shows "round64 x = Num (of_int (rne (x / pow2 (e - 52))) * pow2 (e - 52))"
proof -
  let ?u = "pow2 (e - 52)"
  let ?k = "rne (x / ?u)"
  have x: "0 < x" using assms(1) pow2_pos [of e] by linarith
  then have ex: "expo x = e" using assms by (intro expo_eq) simp_all
  have "pow2 e = pow2 ((e - 52) + 52)" "pow2 (e + 1) = pow2 ((e - 52) + 53)"
    by (rule arg_cong [where f = pow2], simp)+
  then have "pow2 e = ?u * pow2 52" "pow2 (e + 1) = ?u * pow2 53"
    by (simp_all only: pow2_add)
  then have pe: "pow2 e = ?u * 2 ^ 52" "pow2 (e + 1) = ?u * 2 ^ 53"
    by (simp_all add: pow2_def)
  have "of_int (2 ^ 52) \<le> x / ?u"
    using assms(1) pe(1) by (simp add: pos_le_divide_eq mult.commute)
  then have k1: "2 ^ 52 \<le> ?k" by (rule rne_ge)
  have "x / ?u \<le> of_int (2 ^ 53)"
    using assms(2) pe(2) by (simp add: pos_divide_le_eq mult.commute)
  then have k2: "?k \<le> 2 ^ 53" by (rule rne_le)
  have "of_int (2 ^ 52) * ?u \<le> of_int ?k * ?u"
    using k1 by (intro mult_right_mono) (simp_all del: of_int_power of_int_numeral)
  then have y1: "pow2 e \<le> of_int ?k * ?u" using pe(1) by (simp add: mult.commute)
  have "of_int ?k * ?u \<le> of_int (2 ^ 53) * ?u"
    using k2 by (intro mult_right_mono) (simp_all del: of_int_power of_int_numeral)
  then have "of_int ?k * ?u \<le> pow2 (e + 1)" using pe(2) by (simp add: mult.commute)
  also have "\<dots> \<le> pow2 1023" using assms(4) by (intro pow2_mono) simp
  also have "\<dots> < 2 ^ 1024" by (simp add: pow2_def)
  finally have y2: "\<not> 2 ^ 1024 \<le> of_int ?k * ?u" by simp
  have y3: "of_int ?k * ?u \<noteq> 0" using y1 pow2_pos [of e] by linarith
  show ?thesis using y2 y3 by (simp add: round64_pos [OF x] ex Let_def)
qed


lemma round64_overflow:
  assumes "2 ^ 1024 \<le> x"
  shows "round64 x = PosInf"
proof -
  let ?e = "expo x"
  let ?u = "pow2 (?e - 52)"
  let ?k = "rne (x / ?u)"
  have x1: "1 \<le> x" using assms by (smt (verit) one_le_power)
  then have x: "0 < x" by simp
  have e: "?e = expo_up 1024 x" using x1 by (simp add: expo_def)
  then have e1: "?e \<le> 1024" using expo_up_range [of 1024 x] by simp
  have "pow2 1024 = ?u * pow2 (1076 - ?e)"
    using pow2_add [of "?e - 52" "1076 - ?e"] by simp
  then have pe: "2 ^ 1024 = ?u * of_int (2 ^ nat (1076 - ?e))"
    using e1 by (simp add: pow2_def)
  then have "of_int (2 ^ nat (1076 - ?e)) \<le> x / ?u"
    using assms by (simp add: pos_le_divide_eq mult.commute del: of_int_power)
  then have "2 ^ nat (1076 - ?e) \<le> ?k" by (rule rne_ge)
  then have k: "of_int (2 ^ nat (1076 - ?e)) * ?u \<le> of_int ?k * ?u"
    by (intro mult_right_mono) (simp_all del: of_int_power)
  have "(2::real) ^ 1024 = of_int (2 ^ nat (1076 - ?e)) * ?u"
    using pe by (simp only: mult.commute)
  also note k
  finally have "2 ^ 1024 \<le> of_int ?k * ?u" .
  then show ?thesis by (simp only: round64_pos [OF x] Let_def if_True)
qed

section \<open>Arithmetic on finite doubles\<close>

lemma round64_eval:
  assumes "pow2 e \<le> x" "x < pow2 (e + 1)" "- 1022 \<le> e" "e \<le> 1022"
    and "rne (x / pow2 (e - 52)) = k" "of_int k * pow2 (e - 52) = y"
  shows "round64 x = Num y"
  using round64_grid [OF assms(1-4)] assms(5,6) by simp





lemma jless_Num [simp]: "jless (Num a) (Num b) \<longleftrightarrow> a < b"
  by (simp add: jless_def mag_def)

lemma jge_Num [simp]: "jge (Num a) (Num b) \<longleftrightarrow> b \<le> a"
  by (auto simp: jge_def)

section \<open>The numbers of the examples\<close>


lemma round64_0_1_fix: "round64 (3602879701896397 / 36028797018963968) = Num (3602879701896397 / 36028797018963968)"
  by (rule round64_eval [where e = "-4" and k = "7205759403792794"]) (simp_all add: pow2_def rne_def)


lemma is_double_0_1: "is_double (3602879701896397 / 36028797018963968)"
  by (simp add: is_double_def round64_0_1_fix)


lemma round64_0_001_fix: "round64 (1152921504606847 / 1152921504606846976) = Num (1152921504606847 / 1152921504606846976)"
  by (rule round64_eval [where e = "-10" and k = "4611686018427388"]) (simp_all add: pow2_def rne_def)


lemma is_double_0_001: "is_double (1152921504606847 / 1152921504606846976)"
  by (simp add: is_double_def round64_0_001_fix)


lemma round64_0_05_fix: "round64 (3602879701896397 / 72057594037927936) = Num (3602879701896397 / 72057594037927936)"
  by (rule round64_eval [where e = "-5" and k = "7205759403792794"]) (simp_all add: pow2_def rne_def)


lemma is_double_0_05: "is_double (3602879701896397 / 72057594037927936)"
  by (simp add: is_double_def round64_0_05_fix)


lemma round64_0_02_fix: "round64 (5764607523034235 / 288230376151711744) = Num (5764607523034235 / 288230376151711744)"
  by (rule round64_eval [where e = "-6" and k = "5764607523034235"]) (simp_all add: pow2_def rne_def)


lemma is_double_0_02: "is_double (5764607523034235 / 288230376151711744)"
  by (simp add: is_double_def round64_0_02_fix)


lemma round64_0_45_fix: "round64 (8106479329266893 / 18014398509481984) = Num (8106479329266893 / 18014398509481984)"
  by (rule round64_eval [where e = "-2" and k = "8106479329266893"]) (simp_all add: pow2_def rne_def)


lemma is_double_0_45: "is_double (8106479329266893 / 18014398509481984)"
  by (simp add: is_double_def round64_0_45_fix)


lemma round64_0_0005_fix: "round64 (1152921504606847 / 2305843009213693952) = Num (1152921504606847 / 2305843009213693952)"
  by (rule round64_eval [where e = "-11" and k = "4611686018427388"]) (simp_all add: pow2_def rne_def)


lemma is_double_0_0005: "is_double (1152921504606847 / 2305843009213693952)"
  by (simp add: is_double_def round64_0_0005_fix)


lemma round64_0_03_fix: "round64 (1080863910568919 / 36028797018963968) = Num (1080863910568919 / 36028797018963968)"
  by (rule round64_eval [where e = "-6" and k = "8646911284551352"]) (simp_all add: pow2_def rne_def)


lemma is_double_0_03: "is_double (1080863910568919 / 36028797018963968)"
  by (simp add: is_double_def round64_0_03_fix)

lemma round64_0_2: "round64 (1 / 5) = Num (3602879701896397 / 18014398509481984)"
  by (rule round64_eval [where e = "-3" and k = "7205759403792794"]) (simp_all add: pow2_def rne_def)

lemma round64_0_2_fix: "round64 (3602879701896397 / 18014398509481984) = Num (3602879701896397 / 18014398509481984)"
  by (rule round64_eval [where e = "-3" and k = "7205759403792794"]) (simp_all add: pow2_def rne_def)

lemma dbl_0_2: "dbl (1 / 5) = (3602879701896397 / 18014398509481984)"
  using round64_0_2 by (simp add: dbl_def mag_def)

lemma is_double_0_2: "is_double (3602879701896397 / 18014398509481984)"
  by (simp add: is_double_def round64_0_2_fix)


lemma round64_0_3_fix: "round64 (5404319552844595 / 18014398509481984) = Num (5404319552844595 / 18014398509481984)"
  by (rule round64_eval [where e = "-2" and k = "5404319552844595"]) (simp_all add: pow2_def rne_def)


lemma is_double_0_3: "is_double (5404319552844595 / 18014398509481984)"
  by (simp add: is_double_def round64_0_3_fix)





lemma round64_0_5: "round64 (1 / 2) = Num (1 / 2)"
  by (rule round64_eval [where e = "-1" and k = "4503599627370496"]) (simp_all add: pow2_def rne_def)

lemma is_double_0_5: "is_double (1 / 2)"
  using round64_0_5 by (simp add: is_double_def)

lemma round64_0_25: "round64 (1 / 4) = Num (1 / 4)"
  by (rule round64_eval [where e = "-2" and k = "4503599627370496"]) (simp_all add: pow2_def rne_def)

lemma is_double_0_25: "is_double (1 / 4)"
  using round64_0_25 by (simp add: is_double_def)

lemma round64_0_125: "round64 (1 / 8) = Num (1 / 8)"
  by (rule round64_eval [where e = "-3" and k = "4503599627370496"]) (simp_all add: pow2_def rne_def)

lemma is_double_0_125: "is_double (1 / 8)"
  using round64_0_125 by (simp add: is_double_def)

lemma round64_1_5: "round64 (3 / 2) = Num (3 / 2)"
  by (rule round64_eval [where e = "0" and k = "6755399441055744"]) (simp_all add: pow2_def rne_def)

lemma is_double_1_5: "is_double (3 / 2)"
  using round64_1_5 by (simp add: is_double_def)

lemma round64_3: "round64 3 = Num 3"
  by (rule round64_eval [where e = "1" and k = "6755399441055744"]) (simp_all add: pow2_def rne_def)

lemma is_double_3: "is_double 3"
  using round64_3 by (simp add: is_double_def)

lemma round64_5: "round64 5 = Num 5"
  by (rule round64_eval [where e = "2" and k = "5629499534213120"]) (simp_all add: pow2_def rne_def)

lemma is_double_5: "is_double 5"
  using round64_5 by (simp add: is_double_def)

lemma round64_4_75: "round64 (19 / 4) = Num (19 / 4)"
  by (rule round64_eval [where e = "2" and k = "5348024557502464"]) (simp_all add: pow2_def rne_def)

lemma is_double_4_75: "is_double (19 / 4)"
  using round64_4_75 by (simp add: is_double_def)


section \<open>The stability check on the examples\<close>

















section \<open>Temperature to colour: results\<close>


lemma digits_0: "digits 0 = ''0''"
  by (simp add: digits.simps [of 0])

lemma jsub_self: "jsub (Num m) (Num m) = Num 0"
  by (simp add: jsub_def jneg_def jadd_def is_inf_def mag_def)

text \<open>
  Claim C5. When \<open>maxTemp\<close> equals \<open>minTemp\<close>, \<^verbatim>\<open>temperatureToColor\<close> takes no separate
  branch. For the only temperature a frame with such a range contains,
  \<open>temp = minTemp = maxTemp\<close>, it divides zero by zero; the clamp hands NaN through, every
  comparison rejects it, and the result is the text \<open>rgb(NaN, NaN, NaN)\<close>, not
  \<open>rgb(0, 0, 255)\<close>.
\<close>

theorem temperatureToColor_uniform:
  "jdiv (jsub (Num m) (Num m)) (jsub (Num m) (Num m)) = NaN \<and>
   temperatureToColor (Num m) (Num m) (Num m) = ''rgb(NaN, NaN, NaN)''"
  by (simp add: jsub_self temperatureToColor_def colorChannels_def Let_def jdiv_def
      is_inf_def mag_def Math_min_def Math_max_def jless_def jsub_def jneg_def jadd_def
      jmul_def Math_floor_def)

text \<open>
  Claim C10. With \<open>minTemp < maxTemp\<close> the clamp still does not keep the normalized value
  in \<open>[0, 1]\<close> when the quotient is NaN. For \<open>temp = maxTemp = 2\<^sup>1\<^sup>0\<^sup>2\<^sup>3\<close> and
  \<open>minTemp = -2\<^sup>1\<^sup>0\<^sup>2\<^sup>3\<close>, three finite doubles, both differences overflow to infinity,
  their quotient is NaN, and the result is \<open>rgb(NaN, NaN, NaN)\<close>: no channel is an integer
  from 0 to 255, and a \<open>temp\<close> at \<open>maxTemp\<close> is not mapped to \<open>rgb(255, 0, 0)\<close>.
\<close>

theorem temperatureToColor_overflow:
  "jless (Num (- (2 ^ 1023))) (Num (2 ^ 1023)) \<and>
   jsub (Num (2 ^ 1023)) (Num (- (2 ^ 1023))) = PosInf \<and>
   temperatureToColor (Num (2 ^ 1023)) (Num (- (2 ^ 1023))) (Num (2 ^ 1023)) =
     ''rgb(NaN, NaN, NaN)''"
proof -
  have "(2::real) ^ 1023 + 2 ^ 1023 = 2 ^ 1024" by simp
  then have r: "round64 (2 ^ 1023 + 2 ^ 1023) = PosInf"
    by (intro round64_overflow) (simp only: order_refl)
  have s: "jsub (Num (2 ^ 1023)) (Num (- (2 ^ 1023))) = PosInf"
    using r by (simp add: jsub_def jneg_def jadd_def is_inf_def mag_def)
  have l: "jless (Num (- (2 ^ 1023))) (Num (2 ^ 1023))"
    by (simp add: jless_def mag_def)
  have "temperatureToColor (Num (2 ^ 1023)) (Num (- (2 ^ 1023))) (Num (2 ^ 1023)) =
     ''rgb(NaN, NaN, NaN)''"
    unfolding temperatureToColor_def colorChannels_def s
    by (simp add: Let_def jdiv_def is_inf_def Math_min_def Math_max_def jless_def jsub_def
        jneg_def jadd_def jmul_def Math_floor_def)
  with s l show ?thesis by simp
qed

section \<open>The stability check: results\<close>








section \<open>The grid sizes of the examples\<close>





section \<open>Initial condition: results\<close>

text \<open>
  Rounding a quotient of at least 1 to a double below \<open>2\<^sup>5\<^sup>3\<close> moves it no further than to
  the next integer, up or down.
\<close>

lemma pow2_neq_0 [simp]: "pow2 e \<noteq> 0"
  using pow2_pos [of e] by linarith








section \<open>The Neumann assignments on the example doubles\<close>







section \<open>The left and right columns: results\<close>





section \<open>The animation step: results\<close>






end
